theory Spec2Isabelle
  imports Main "HOL-Library.Word" "HOL-Library.Sublist"
begin

section \<open>Values of the Go runtime and standard library used by progress.go\<close>

text \<open>
  Go's \<open>int\<close> is modelled at 64 bits (the size on the platforms the \<open>stty\<close> switch of
  \<open>GetTerminalWidth\<close> names); \<open>+\<close> and \<open>-\<close> wrap, \<open>sint\<close> reads the signed value.
  A \<open>[]byte\<close> and a Go \<open>string\<close> are both a list of bytes, \<open>string\<close> here.
\<close>

type_synonym goint = "64 word"

datatype panic =
    SliceBoundsOutOfRange
  | NilDereference
  | CloseOfNilChannel
  | CloseOfClosedChannel
  | NotifyNilChannel

datatype error = ErrExecFail

datatype num_error = ErrSyntax | ErrRange

text \<open>\<open>bytes.IndexByte\<close>: the index of the first occurrence of the byte, or \<open>-1\<close>.\<close>

fun IndexByte :: "string \<Rightarrow> char \<Rightarrow> int" where
  "IndexByte [] c = - 1"
| "IndexByte (x # xs) c =
     (if x = c then 0
      else (let i = IndexByte xs c in if i < 0 then - 1 else i + 1))"

text \<open>
  The slice expression \<open>a[low:high]\<close>. Go panics unless \<open>0 \<le> low \<le> high \<le> cap a\<close>; the one
  slice expression of progress.go has \<open>high = len a - 1\<close>, below the length and so below the
  capacity, which is why the length stands for the capacity here.
\<close>

definition go_slice :: "'a list \<Rightarrow> int \<Rightarrow> int \<Rightarrow> panic + 'a list" where
  "go_slice a low high =
     (if 0 \<le> low \<and> low \<le> high \<and> high \<le> int (length a)
      then Inr (take (nat (high - low)) (drop (nat low) a))
      else Inl SliceBoundsOutOfRange)"

text \<open>
  \<open>strconv.Atoi\<close>, which is \<open>strconv.ParseInt(s, 10, 0)\<close> converted to \<open>int\<close> (its fast path for
  short strings gives the same results). \<open>ParseInt\<close> takes an optional sign off and hands the
  rest to \<open>ParseUint\<close>, whose loop reads the bytes from the left: a byte that is not a
  decimal digit ends it with a syntax error and value 0; a digit that takes the value past
  64 unsigned bits ends it, there and then, with a range error and the largest value, whatever
  follows (the loop's two tests: the value so far has reached \<open>maxUint64/10 + 1\<close>, or adding
  the digit passes \<open>maxUint64\<close>). \<open>ParseInt\<close> passes a syntax error on with value 0, and turns
  a value outside 64 signed bits into a range error with the largest magnitude of the sign.
\<close>

definition is_digit :: "char \<Rightarrow> bool" where
  "is_digit c = (48 \<le> (of_char c :: nat) \<and> (of_char c :: nat) \<le> 57)"

fun ParseUint10_loop :: "nat \<Rightarrow> string \<Rightarrow> nat \<times> num_error option" where
  "ParseUint10_loop n [] = (n, None)"
| "ParseUint10_loop n (c # cs) =
     (if is_digit c then
        (if 1844674407370955162 \<le> n then (18446744073709551615, Some ErrRange)
         else if 18446744073709551615 < n * 10 + (of_char c - 48)
              then (18446744073709551615, Some ErrRange)
              else ParseUint10_loop (n * 10 + (of_char c - 48)) cs)
      else (0, Some ErrSyntax))"

definition ParseUint10 :: "string \<Rightarrow> nat \<times> num_error option" where
  "ParseUint10 s = (if s = [] then (0, Some ErrSyntax) else ParseUint10_loop 0 s)"

definition sign_stripped :: "string \<Rightarrow> string" where
  "sign_stripped s =
     (case s of
        [] \<Rightarrow> []
      | c # cs \<Rightarrow> if c = CHR ''+'' then cs else if c = CHR ''-'' then cs else s)"

definition ParseInt10 :: "string \<Rightarrow> int \<times> num_error option" where
  "ParseInt10 s =
     (if s = [] then (0, Some ErrSyntax)
      else
        (let neg = (hd s = CHR ''-'')
         in case ParseUint10 (sign_stripped s) of
              (un, Some ErrSyntax) \<Rightarrow> (0, Some ErrSyntax)
            | (un, _) \<Rightarrow>
                if neg then
                  (if 2 ^ 63 < un then (- (2 ^ 63), Some ErrRange) else (- int un, None))
                else
                  (if 2 ^ 63 \<le> un then (2 ^ 63 - 1, Some ErrRange) else (int un, None))))"

definition Atoi :: "string \<Rightarrow> goint \<times> num_error option" where
  "Atoi s = (case ParseInt10 s of (v, err) \<Rightarrow> (word_of_int v, err))"

text \<open>The value of a string of decimal digits, read from the left onto \<open>n\<close>.\<close>

fun digits_value :: "nat \<Rightarrow> string \<Rightarrow> nat" where
  "digits_value n [] = n"
| "digits_value n (c # cs) = digits_value (n * 10 + (of_char c - 48)) cs"

section \<open>The environment of the package\<close>

text \<open>
  Modelled from the spec: the type \<open>Bar\<close> is declared in bar.go. The spec gives a bar a total,
  a current value and a display width; progress.go writes its \<open>Width\<close> and calls \<open>NewBar\<close>,
  \<open>SetWidth\<close> and \<open>String\<close> on it.
\<close>

record Bar =
  Total :: goint
  current :: goint
  Width :: goint

datatype exec_result = ExecError | ExecOutput string

text \<open>
  What the package reads from outside itself: the platform name, its own package variables
  (\<open>Out\<close>, \<open>RefreshInterval\<close>, \<open>SizeToken\<close>, and \<open>Width\<close> of bar.go), the result of
  \<open>exec.Command(args).Output()\<close>, and the rendering \<open>Bar.String\<close> of bar.go.
\<close>

record env =
  GOOS :: string
  pkg_Out :: nat
  pkg_RefreshInterval :: goint
  pkg_Width :: goint
  SizeToken :: char
  exec_Output :: "string list \<Rightarrow> exec_result"
  Bar_String :: "Bar \<Rightarrow> string"

section \<open>GetTerminalWidth\<close>

definition stty_option :: "string \<Rightarrow> string" where
  "stty_option goos =
     (if goos = ''darwin'' then ''-f'' else if goos = ''linux'' then ''-F'' else ''-f'')"

definition stty_command :: "env \<Rightarrow> string list" where
  "stty_command e = [''stty'', stty_option (GOOS e), ''/dev/tty'', ''size'']"

definition GetTerminalWidth :: "env \<Rightarrow> panic + (goint \<times> error option)" where
  "GetTerminalWidth e =
     (case exec_Output e (stty_command e) of
        ExecError \<Rightarrow> Inr (0, Some ErrExecFail)
      | ExecOutput out \<Rightarrow>
          (let idx = IndexByte out (SizeToken e)
           in case go_slice out (idx + 1) (int (length out) - 1) of
                Inl pn \<Rightarrow> Inl pn
              | Inr field \<Rightarrow> (case Atoi field of (width, _) \<Rightarrow> Inr (width - 20, None))))"

text \<open>Fixtures: a terminal that answers with fixed bytes, one whose query fails.\<close>

definition tty_answers :: "string \<Rightarrow> string list \<Rightarrow> exec_result" where
  "tty_answers out args = ExecOutput out"

definition tty_fails :: "string list \<Rightarrow> exec_result" where
  "tty_fails args = ExecError"

definition show_bar :: "Bar \<Rightarrow> string" where
  "show_bar b = (if Width b = 0 then ''[]'' else ''[='' @ replicate (unat (current b)) CHR ''='' @ '']'')"

definition linux_env :: "(string list \<Rightarrow> exec_result) \<Rightarrow> env" where
  "linux_env run =
     \<lparr>GOOS = ''linux'', pkg_Out = 1, pkg_RefreshInterval = 10000000, pkg_Width = 70,
      SizeToken = CHR '' '', exec_Output = run, Bar_String = show_bar\<rparr>"

section \<open>Channels, the live writer and the world\<close>

text \<open>
  Bars and channels are reached through pointers: \<open>Bars\<close> is a \<open>[]*Bar\<close>, and \<open>Stop\<close> closes
  a channel and then drops its reference. Both live in a store, a list indexed by address;
  allocation appends, so a new address is the length of the store. An address outside the
  store stands for a pointer that cannot be dereferenced.

  Only \<open>SIGWINCH\<close> is ever sent on a channel, so a buffer is the number of values in it.
  The trace records what the package does to the outside, in order.
\<close>

record chan =
  ch_cap :: nat
  ch_queued :: nat
  ch_closed :: bool

datatype event =
    Println string
  | Sleep goint
  | Flushed nat string
  | Lock | Unlock | RLock | RUnlock
  | Make nat
  | Notify nat
  | Go_Listen

record world =
  bars :: "Bar list"
  chans :: "chan list"
  trace :: "event list"

record Writer =
  lw_Out :: nat
  buf :: string

record Progress =
  Out :: nat
  pWidth :: goint
  Bars :: "nat list"
  RefreshInterval :: goint
  sigChan :: "nat option"
  lw :: Writer
  stopChan :: "nat option"

type_synonym state = "Progress \<times> world"

datatype 'a loop = Return 'a | Continue 'a

definition emit :: "event \<Rightarrow> world \<Rightarrow> world" where
  "emit ev w = w\<lparr>trace := trace w @ [ev]\<rparr>"

definition Error :: "error \<Rightarrow> string" where
  "Error err = (case err of ErrExecFail \<Rightarrow> ''errors: fail to get terminal width'')"

definition make_chan :: "nat \<Rightarrow> world \<Rightarrow> nat \<times> world" where
  "make_chan n w =
     (length (chans w),
      emit (Make (length (chans w)))
        (w\<lparr>chans := chans w @ [\<lparr>ch_cap = n, ch_queued = 0, ch_closed = False\<rparr>]\<rparr>))"

text \<open>\<open>close(c)\<close> panics on a nil channel and on a closed one.\<close>

definition close_chan :: "nat option \<Rightarrow> world \<Rightarrow> panic + world" where
  "close_chan c w =
     (case c of
        None \<Rightarrow> Inl CloseOfNilChannel
      | Some a \<Rightarrow>
          if a < length (chans w) then
            (if ch_closed (chans w ! a) then Inl CloseOfClosedChannel
             else Inr (w\<lparr>chans := (chans w)[a := (chans w ! a)\<lparr>ch_closed := True\<rparr>]\<rparr>))
          else Inl NilDereference)"

text \<open>
  A receive can proceed on a channel that holds a value or is closed, and never on a nil
  channel. Receiving takes a buffered value when there is one.
\<close>

definition recv_ready :: "world \<Rightarrow> nat option \<Rightarrow> bool" where
  "recv_ready w c =
     (case c of
        None \<Rightarrow> False
      | Some a \<Rightarrow> a < length (chans w)
                  \<and> (ch_closed (chans w ! a) \<or> 0 < ch_queued (chans w ! a)))"

definition recv :: "nat option \<Rightarrow> world \<Rightarrow> world" where
  "recv c w =
     (case c of
        None \<Rightarrow> w
      | Some a \<Rightarrow>
          if a < length (chans w) then
            w\<lparr>chans := (chans w)[a := (chans w ! a)\<lparr>ch_queued := ch_queued (chans w ! a) - 1\<rparr>]\<rparr>
          else w)"

text \<open>
  Modelled from the spec: \<open>uilive.New\<close> and \<open>Writer.Flush\<close> belong to the sink, which the spec
  describes as accepting written lines and flushing them as one block to its stream. A new
  writer has an empty buffer and writes to standard output (stream 1); \<open>Flush\<close> hands the
  buffered block to the stream and empties the buffer.
\<close>

definition uilive_New :: Writer where
  "uilive_New = \<lparr>lw_Out = 1, buf = []\<rparr>"

definition Flush :: "state \<Rightarrow> state" where
  "Flush s =
     (case s of (p, w) \<Rightarrow>
        (p\<lparr>lw := (lw p)\<lparr>buf := []\<rparr>\<rparr>, emit (Flushed (lw_Out (lw p)) (buf (lw p))) w))"

text \<open>
  Modelled from the spec: \<open>NewBar\<close> and \<open>Bar.SetWidth\<close> are in bar.go. The spec gives a bar a
  total fixed at creation, a current value and a settable width; a new bar starts at 0 with
  the package's default width, and \<open>SetWidth\<close> overwrites the width of the bar it is called on.
\<close>

definition NewBar :: "env \<Rightarrow> goint \<Rightarrow> world \<Rightarrow> nat \<times> world" where
  "NewBar e tot w =
     (length (bars w),
      w\<lparr>bars := bars w @ [\<lparr>Total = tot, current = 0, Width = pkg_Width e\<rparr>]\<rparr>)"

definition SetWidth :: "nat \<Rightarrow> goint \<Rightarrow> world \<Rightarrow> panic + world" where
  "SetWidth bar width w =
     (if bar < length (bars w)
      then Inr (w\<lparr>bars := (bars w)[bar := (bars w ! bar)\<lparr>Width := width\<rparr>]\<rparr>)
      else Inl NilDereference)"

section \<open>Progress\<close>

definition New :: "env \<Rightarrow> world \<Rightarrow> state" where
  "New e w =
     (case make_chan 1 w of (sc, w1) \<Rightarrow>
      case make_chan 0 w1 of (st, w2) \<Rightarrow>
        (\<lparr>Out = pkg_Out e, pWidth = pkg_Width e, Bars = [],
          RefreshInterval = pkg_RefreshInterval e,
          sigChan = Some sc, lw = uilive_New, stopChan = Some st\<rparr>, w2))"

definition AddBar :: "env \<Rightarrow> goint \<Rightarrow> state \<Rightarrow> nat \<times> state" where
  "AddBar e tot s =
     (case s of (p, w) \<Rightarrow>
      case NewBar e tot (emit Lock w) of (bar, w1) \<Rightarrow>
        (bar,
         p\<lparr>Bars := Bars p @ [bar]\<rparr>,
         emit Unlock (w1\<lparr>bars := (bars w1)[bar := (bars w1 ! bar)\<lparr>Width := pWidth p\<rparr>]\<rparr>)))"

text \<open>The loop \<open>for _, bar := range p.Bars { bar.SetWidth(width) }\<close>.\<close>

fun SetWidth_each :: "nat list \<Rightarrow> goint \<Rightarrow> world \<Rightarrow> panic + world" where
  "SetWidth_each [] width w = Inr w"
| "SetWidth_each (bar # rest) width w =
     (case SetWidth bar width w of
        Inl pn \<Rightarrow> Inl pn
      | Inr w1 \<Rightarrow> SetWidth_each rest width w1)"

definition ChangeWidth :: "env \<Rightarrow> state \<Rightarrow> panic + state" where
  "ChangeWidth e s =
     (case s of (p, w) \<Rightarrow>
        (case GetTerminalWidth e of
           Inl pn \<Rightarrow> Inl pn
         | Inr (width, Some err) \<Rightarrow> Inr (p, emit (Println (Error err)) w)
         | Inr (width, None) \<Rightarrow>
             (case SetWidth_each (Bars p) width (emit RLock w) of
                Inl pn \<Rightarrow> Inl pn
              | Inr w1 \<Rightarrow> (case Flush (p, w1) of (p2, w2) \<Rightarrow> Inr (p2, emit RUnlock w2)))))"

text \<open>The loop \<open>for _, bar := range p.Bars { fmt.Fprintln(p.lw, bar.String()) }\<close>.\<close>

fun Fprintln_each :: "env \<Rightarrow> nat list \<Rightarrow> state \<Rightarrow> panic + state" where
  "Fprintln_each e [] s = Inr s"
| "Fprintln_each e (bar # rest) (p, w) =
     (if bar < length (bars w)
      then Fprintln_each e rest
             (p\<lparr>lw := (lw p)\<lparr>buf := buf (lw p) @ Bar_String e (bars w ! bar) @ [CHR 0x0A]\<rparr>\<rparr>, w)
      else Inl NilDereference)"

text \<open>The default branch of the select: sleep, then render every bar and flush, under the read lock.\<close>

definition render_pass :: "env \<Rightarrow> state \<Rightarrow> panic + state" where
  "render_pass e s =
     (case s of (p, w) \<Rightarrow>
        (case Fprintln_each e (Bars p) (p, emit RLock (emit (Sleep (RefreshInterval p)) w)) of
           Inl pn \<Rightarrow> Inl pn
         | Inr s1 \<Rightarrow> (case Flush s1 of (p2, w2) \<Rightarrow> Inr (p2, emit RUnlock w2))))"

text \<open>
  The select statement of \<open>Listen\<close>. Go evaluates the channel operands on entry, and when
  several cases can proceed it picks one of them by a uniform pseudo-random choice; the
  default case runs only when none can. \<open>rnd\<close> is that choice.
\<close>

datatype branch = Case_stopChan | Case_sigChan | Case_default

definition select_branch :: "nat \<Rightarrow> state \<Rightarrow> branch" where
  "select_branch rnd s =
     (case s of (p, w) \<Rightarrow>
        (let ready = (if recv_ready w (stopChan p) then [Case_stopChan] else [])
                   @ (if recv_ready w (sigChan p) then [Case_sigChan] else [])
         in if ready = [] then Case_default else ready ! (rnd mod length ready)))"

text \<open>One iteration of the \<open>for\<close> loop of \<open>Listen\<close>.\<close>

definition Listen_iter :: "env \<Rightarrow> nat \<Rightarrow> state \<Rightarrow> panic + state loop" where
  "Listen_iter e rnd s =
     (case s of (p, w) \<Rightarrow>
        (case select_branch rnd s of
           Case_stopChan \<Rightarrow> Inr (Return (p, recv (stopChan p) w))
         | Case_sigChan \<Rightarrow>
             (case ChangeWidth e (p, recv (sigChan p) w) of
                Inl pn \<Rightarrow> Inl pn
              | Inr s1 \<Rightarrow> Inr (Continue s1))
         | Case_default \<Rightarrow>
             (case render_pass e s of
                Inl pn \<Rightarrow> Inl pn
              | Inr s1 \<Rightarrow> Inr (Continue s1))))"

text \<open>
  The loop never ends by itself. It is run against a schedule that gives, for each
  iteration, the environment at that moment and the choice of the select; when the schedule
  is used up the loop is still running.
\<close>

fun Listen_loop :: "(env \<times> nat) list \<Rightarrow> state \<Rightarrow> panic + state loop" where
  "Listen_loop [] s = Inr (Continue s)"
| "Listen_loop ((e, rnd) # ticks) s =
     (case Listen_iter e rnd s of
        Inl pn \<Rightarrow> Inl pn
      | Inr (Return s1) \<Rightarrow> Inr (Return s1)
      | Inr (Continue s1) \<Rightarrow> Listen_loop ticks s1)"

definition Listen :: "(env \<times> nat) list \<Rightarrow> state \<Rightarrow> panic + state loop" where
  "Listen ticks s =
     (case s of (p, w) \<Rightarrow> Listen_loop ticks (p\<lparr>lw := (lw p)\<lparr>lw_Out := Out p\<rparr>\<rparr>, w))"

text \<open>\<open>signal.Notify\<close> panics on a nil channel.\<close>

definition SetNotify :: "state \<Rightarrow> panic + state" where
  "SetNotify s =
     (case s of (p, w) \<Rightarrow>
        (case sigChan p of
           None \<Rightarrow> Inl NotifyNilChannel
         | Some c \<Rightarrow> Inr (p, emit (Notify c) w)))"

definition Start :: "state \<Rightarrow> panic + state" where
  "Start s =
     (case s of (p, w) \<Rightarrow>
      case (if stopChan p = None
            then (case make_chan 0 w of (c, w1) \<Rightarrow> (p\<lparr>stopChan := Some c\<rparr>, w1))
            else (p, w)) of (p1, w1) \<Rightarrow>
      case (if sigChan p1 = None
            then (case make_chan 1 w1 of (c, w2) \<Rightarrow> (p1\<lparr>sigChan := Some c\<rparr>, w2))
            else (p1, w1)) of s2 \<Rightarrow>
        (case SetNotify s2 of
           Inl pn \<Rightarrow> Inl pn
         | Inr (p3, w3) \<Rightarrow> Inr (p3, emit Go_Listen w3)))"

definition Stop :: "state \<Rightarrow> panic + state" where
  "Stop s =
     (case s of (p, w) \<Rightarrow>
        (case close_chan (stopChan p) w of
           Inl pn \<Rightarrow> Inl pn
         | Inr w1 \<Rightarrow>
             (case close_chan (sigChan (p\<lparr>stopChan := None\<rparr>)) w1 of
                Inl pn \<Rightarrow> Inl pn
              | Inr w2 \<Rightarrow> Inr (p\<lparr>stopChan := None, sigChan := None\<rparr>, w2))))"

text \<open>Sequences of calls on one Progress.\<close>

fun AddBars :: "env \<Rightarrow> goint list \<Rightarrow> state \<Rightarrow> state" where
  "AddBars e [] s = s"
| "AddBars e (tot # tots) s = AddBars e tots (snd (AddBar e tot s))"

datatype op =
    Op_AddBar env goint
  | Op_ChangeWidth env
  | Op_Listen "(env \<times> nat) list"
  | Op_Listen_iter env nat
  | Op_Start
  | Op_Stop
  | Op_SetNotify

definition loop_state :: "'a loop \<Rightarrow> 'a" where
  "loop_state l = (case l of Return s \<Rightarrow> s | Continue s \<Rightarrow> s)"

definition apply_op :: "op \<Rightarrow> state \<Rightarrow> panic + state" where
  "apply_op c s =
     (case c of
        Op_AddBar e tot \<Rightarrow> Inr (snd (AddBar e tot s))
      | Op_ChangeWidth e \<Rightarrow> ChangeWidth e s
      | Op_Listen ticks \<Rightarrow> map_sum id loop_state (Listen ticks s)
      | Op_Listen_iter e rnd \<Rightarrow> map_sum id loop_state (Listen_iter e rnd s)
      | Op_Start \<Rightarrow> Start s
      | Op_Stop \<Rightarrow> Stop s
      | Op_SetNotify \<Rightarrow> SetNotify s)"

fun run_ops :: "op list \<Rightarrow> state \<Rightarrow> panic + state" where
  "run_ops [] s = Inr s"
| "run_ops (c # cs) s =
     (case apply_op c s of
        Inl pn \<Rightarrow> Inl pn
      | Inr s1 \<Rightarrow> run_ops cs s1)"

text \<open>Every bar pointer of the collection can be dereferenced.\<close>

definition bars_allocated :: "state \<Rightarrow> bool" where
  "bars_allocated s = (case s of (p, w) \<Rightarrow> list_all (\<lambda>bar. bar < length (bars w)) (Bars p))"

definition world0 :: world where
  "world0 = \<lparr>bars = [], chans = [], trace = []\<rparr>"

text \<open>Fixture: a new Progress to which two bars, of totals 100 and 50, have been added.\<close>

definition two_bars :: "env \<Rightarrow> state" where
  "two_bars e = AddBars e [100, 50] (New e world0)"

text \<open>
  Fixtures: a state in which the stop channel has been closed while a resize notification
  sits in the resize channel (the state between the two statements at the start of \<open>Stop\<close>,
  with a signal delivered), and a terminal of 24 rows and 100 columns.
\<close>

definition stop_and_resize_pending :: state where
  "stop_and_resize_pending =
     (\<lparr>Out = 1, pWidth = 70, Bars = [0], RefreshInterval = 10000000,
       sigChan = Some 0, lw = \<lparr>lw_Out = 1, buf = []\<rparr>, stopChan = Some 1\<rparr>,
      \<lparr>bars = [\<lparr>Total = 100, current = 0, Width = 70\<rparr>],
       chans = [\<lparr>ch_cap = 1, ch_queued = 1, ch_closed = False\<rparr>,
                \<lparr>ch_cap = 0, ch_queued = 0, ch_closed = True\<rparr>],
       trace = []\<rparr>)"

definition resized_env :: env where
  "resized_env = linux_env (tty_answers (''24 100'' @ [CHR 0x0A]))"

text \<open>
  Two Progress values that differ at most in the writer, and two stores of bars that differ
  at most in the widths of the bars.
\<close>

definition same_but_lw :: "Progress \<Rightarrow> Progress \<Rightarrow> bool" where
  "same_but_lw p p' =
     (Out p' = Out p \<and> pWidth p' = pWidth p \<and> Bars p' = Bars p
      \<and> RefreshInterval p' = RefreshInterval p
      \<and> sigChan p' = sigChan p \<and> stopChan p' = stopChan p)"

definition same_but_Width :: "Bar list \<Rightarrow> Bar list \<Rightarrow> bool" where
  "same_but_Width bs bs' =
     (map Total bs' = map Total bs \<and> map current bs' = map current bs)"

section \<open>Properties of GetTerminalWidth\<close>

lemma IndexByte_lower: "- 1 \<le> IndexByte out c"
  by (induction out) (auto simp: Let_def)

lemma IndexByte_upper: "IndexByte out c < int (length out)"
  by (induction out) (auto simp: Let_def)

lemma digits_value_ge: "n \<le> digits_value n ds"
proof (induction ds arbitrary: n)
  case Nil
  show ?case by simp
next
  case (Cons c cs)
  have "n \<le> n * 10 + (of_char c - 48)" by simp
  also have "\<dots> \<le> digits_value (n * 10 + (of_char c - 48)) cs" by (rule Cons.IH)
  finally show ?case by simp
qed

lemma ParseUint10_loop_char:
  "n \<le> 18446744073709551615 \<Longrightarrow>
   ParseUint10_loop n s =
     (if 18446744073709551615 < digits_value n (takeWhile is_digit s)
      then (18446744073709551615, Some ErrRange)
      else if takeWhile is_digit s \<noteq> s then (0, Some ErrSyntax)
      else (digits_value n s, None))"
proof (induction s arbitrary: n)
  case Nil
  then show ?case by simp
next
  case (Cons c cs)
  show ?case
  proof (cases "is_digit c")
    case False
    with Cons.prems show ?thesis by simp
  next
    case True
    let ?n1 = "n * 10 + (of_char c - 48)"
    have ge: "?n1 \<le> digits_value ?n1 (takeWhile is_digit cs)" by (rule digits_value_ge)
    show ?thesis
    proof (cases "18446744073709551615 < ?n1")
      case over: True
      with ge have "18446744073709551615 < digits_value ?n1 (takeWhile is_digit cs)" by linarith
      with True over show ?thesis by auto
    next
      case fits: False
      then have small: "\<not> 1844674407370955162 \<le> n" by linarith
      from fits have "?n1 \<le> 18446744073709551615" by simp
      from Cons.IH [OF this] True fits small show ?thesis by simp
    qed
  qed
qed

lemma ParseUint10_result:
  "ParseUint10 s =
     (if s = [] then (0, Some ErrSyntax)
      else if 18446744073709551615 < digits_value 0 (takeWhile is_digit s)
      then (18446744073709551615, Some ErrRange)
      else if takeWhile is_digit s \<noteq> s then (0, Some ErrSyntax)
      else (digits_value 0 s, None))"
proof -
  have "ParseUint10_loop 0 s =
     (if 18446744073709551615 < digits_value 0 (takeWhile is_digit s)
      then (18446744073709551615, Some ErrRange)
      else if takeWhile is_digit s \<noteq> s then (0, Some ErrSyntax)
      else (digits_value 0 s, None))"
    by (rule ParseUint10_loop_char) simp
  then show ?thesis by (simp only: ParseUint10_def)
qed

lemma Atoi_syntax_iff:
  "(snd (Atoi s) = Some ErrSyntax)
     = (sign_stripped s = []
        \<or> (takeWhile is_digit (sign_stripped s) \<noteq> sign_stripped s
           \<and> digits_value 0 (takeWhile is_digit (sign_stripped s)) \<le> 18446744073709551615))"
proof (cases "s = []")
  case True
  then show ?thesis by (simp add: Atoi_def ParseInt10_def sign_stripped_def)
next
  case False
  then show ?thesis
    by (auto simp: Atoi_def ParseInt10_def ParseUint10_result Let_def split: prod.splits)
qed

lemma Atoi_syntax_value: "snd (Atoi s) = Some ErrSyntax \<Longrightarrow> fst (Atoi s) = 0"
  by (auto simp: Atoi_def ParseInt10_def Let_def
      split: prod.splits option.splits num_error.splits if_splits)

lemma Atoi_range_value:
  "snd (Atoi s) = Some ErrRange \<Longrightarrow>
   fst (Atoi s) = (if hd s = CHR ''-'' then - (2 ^ 63) else 2 ^ 63 - 1)"
  by (auto simp: Atoi_def ParseInt10_def Let_def
      split: prod.splits option.splits num_error.splits if_splits)

lemma GetTerminalWidth_parsed:
  assumes "exec_Output e (stty_command e) = ExecOutput out"
    and "go_slice out (IndexByte out (SizeToken e) + 1) (int (length out) - 1) = Inr field"
  shows "GetTerminalWidth e = Inr (fst (Atoi field) - 20, None)"
  using assms by (simp add: GetTerminalWidth_def split: prod.splits)

text \<open>
  C1, as stated: with a successful query whose trailing field is not a number, the width
  returned is 0. The answer \<open>80 xx\<close> followed by a newline has the trailing field \<open>xx\<close>,
  which \<open>Atoi\<close> rejects, and the width returned is \<open>-20\<close>: the margin is subtracted from
  the 0 that the failed parse leaves.
\<close>

theorem GetTerminalWidth_unparsable_counterexample:
  "snd (Atoi ''xx'') = Some ErrSyntax
   \<and> GetTerminalWidth (linux_env (tty_answers (''80 xx'' @ [CHR 0x0A]))) = Inr (- 20, None)
   \<and> GetTerminalWidth (linux_env (tty_answers (''80 xx'' @ [CHR 0x0A]))) \<noteq> Inr (0, None)
   \<and> sint (- 20 :: goint) = - 20"
  by (simp add: GetTerminalWidth_def linux_env_def tty_answers_def stty_command_def
      go_slice_def Atoi_def ParseInt10_def ParseUint10_def sign_stripped_def is_digit_def)

text \<open>
  C1, amended: when the query succeeds, the slice bounds are valid and \<open>Atoi\<close> rejects the
  trailing field, \<open>GetTerminalWidth\<close> returns no error and the width is the value \<open>Atoi\<close>
  leaves minus the margin 20. For a field that is not a decimal number (a syntax error:
  after an optional sign the field is empty, or a byte that is not a digit comes before the
  digits pass 64 unsigned bits) that value is 0 and the width is \<open>-20\<close>. For a range error
  the value is the largest magnitude of the sign, and the width is that minus 20, wrapped.
\<close>

theorem GetTerminalWidth_unparsable:
  assumes "exec_Output e (stty_command e) = ExecOutput out"
    and "go_slice out (IndexByte out (SizeToken e) + 1) (int (length out) - 1) = Inr field"
    and "snd (Atoi field) = Some err"
  shows "GetTerminalWidth e = Inr (fst (Atoi field) - 20, None)
         \<and> (err = ErrSyntax \<longrightarrow> GetTerminalWidth e = Inr (- 20, None))
         \<and> (err = ErrRange \<longrightarrow>
               GetTerminalWidth e
                 = Inr (if hd field = CHR ''-'' then 2 ^ 63 - 20 else 2 ^ 63 - 21, None))
         \<and> ((err = ErrSyntax)
               = (sign_stripped field = []
                  \<or> (takeWhile is_digit (sign_stripped field) \<noteq> sign_stripped field
                     \<and> digits_value 0 (takeWhile is_digit (sign_stripped field))
                          \<le> 18446744073709551615)))"
proof -
  have parsed: "GetTerminalWidth e = Inr (fst (Atoi field) - 20, None)"
    using assms(1,2) by (rule GetTerminalWidth_parsed)
  have syn: "err = ErrSyntax \<longrightarrow> GetTerminalWidth e = Inr (- 20, None)"
    using parsed assms(3) Atoi_syntax_value [of field] by simp
  have rng: "err = ErrRange \<longrightarrow>
               GetTerminalWidth e
                 = Inr (if hd field = CHR ''-'' then 2 ^ 63 - 20 else 2 ^ 63 - 21, None)"
    using parsed assms(3) Atoi_range_value [of field] by simp
  have iff: "(err = ErrSyntax)
               = (sign_stripped field = []
                  \<or> (takeWhile is_digit (sign_stripped field) \<noteq> sign_stripped field
                     \<and> digits_value 0 (takeWhile is_digit (sign_stripped field))
                          \<le> 18446744073709551615))"
    using assms(3) Atoi_syntax_iff [of field] by simp
  from parsed syn rng iff show ?thesis by blast
qed

theorem GetTerminalWidth_unparsable_witness:
  "exec_Output (linux_env (tty_answers (''80 xx'' @ [CHR 0x0A])))
     (stty_command (linux_env (tty_answers (''80 xx'' @ [CHR 0x0A])))) = ExecOutput (''80 xx'' @ [CHR 0x0A])
   \<and> go_slice (''80 xx'' @ [CHR 0x0A]) (IndexByte (''80 xx'' @ [CHR 0x0A]) CHR '' '' + 1) 5 = Inr ''xx''
   \<and> snd (Atoi ''xx'') = Some ErrSyntax
   \<and> GetTerminalWidth (linux_env (tty_answers (''80 xx'' @ [CHR 0x0A]))) = Inr (- 20, None)
   \<and> exec_Output (linux_env (tty_answers (''80 99999999999999999999x'' @ [CHR 0x0A])))
       (stty_command (linux_env (tty_answers (''80 99999999999999999999x'' @ [CHR 0x0A]))))
       = ExecOutput (''80 99999999999999999999x'' @ [CHR 0x0A])
   \<and> go_slice (''80 99999999999999999999x'' @ [CHR 0x0A])
       (IndexByte (''80 99999999999999999999x'' @ [CHR 0x0A]) CHR '' '' + 1) 24
       = Inr ''99999999999999999999x''
   \<and> snd (Atoi ''99999999999999999999x'') = Some ErrRange
   \<and> GetTerminalWidth (linux_env (tty_answers (''80 99999999999999999999x'' @ [CHR 0x0A])))
       = Inr (9223372036854775787, None)"
  using GetTerminalWidth_unparsable
    [of "linux_env (tty_answers (''80 xx'' @ [CHR 0x0A]))" "''80 xx'' @ [CHR 0x0A]" "''xx''" ErrSyntax]
    GetTerminalWidth_unparsable
    [of "linux_env (tty_answers (''80 99999999999999999999x'' @ [CHR 0x0A]))"
        "''80 99999999999999999999x'' @ [CHR 0x0A]" "''99999999999999999999x''" ErrRange]
  by (simp add: linux_env_def tty_answers_def go_slice_def Atoi_def ParseInt10_def
      ParseUint10_def sign_stripped_def is_digit_def)

text \<open>
  C7: the answer \<open>80 24\<close> followed by a newline, with the delimiter a space: the field between
  the first space and the last byte is \<open>24\<close>, it parses to 24, and the width returned is
  \<open>24 - 20 = 4\<close> with no error.
\<close>

theorem GetTerminalWidth_80_24:
  assumes "exec_Output e (stty_command e) = ExecOutput (''80 24'' @ [CHR 0x0A])"
    and "SizeToken e = CHR '' ''"
  shows "go_slice (''80 24'' @ [CHR 0x0A]) (IndexByte (''80 24'' @ [CHR 0x0A]) (SizeToken e) + 1)
           (int (length (''80 24'' @ [CHR 0x0A])) - 1) = Inr ''24''
         \<and> Atoi ''24'' = (24, None)
         \<and> GetTerminalWidth e = Inr (4, None)"
  using assms
  by (simp add: GetTerminalWidth_def go_slice_def Atoi_def ParseInt10_def ParseUint10_def sign_stripped_def is_digit_def)

theorem GetTerminalWidth_80_24_witness:
  "exec_Output (linux_env (tty_answers (''80 24'' @ [CHR 0x0A])))
     (stty_command (linux_env (tty_answers (''80 24'' @ [CHR 0x0A])))) = ExecOutput (''80 24'' @ [CHR 0x0A])
   \<and> SizeToken (linux_env (tty_answers (''80 24'' @ [CHR 0x0A]))) = CHR '' ''
   \<and> GetTerminalWidth (linux_env (tty_answers (''80 24'' @ [CHR 0x0A]))) = Inr (4, None)"
  using GetTerminalWidth_80_24 [of "linux_env (tty_answers (''80 24'' @ [CHR 0x0A]))"]
  by (simp add: linux_env_def tty_answers_def)

text \<open>
  C8: \<open>GetTerminalWidth\<close> returns an error exactly when the query command fails; the error
  is then \<open>ErrExecFail\<close> and the width 0; no answer of a query that ran makes it return an
  error (on some answers it panics instead of returning, which C9 is about).
\<close>

theorem GetTerminalWidth_error_iff:
  "((\<exists>width err. GetTerminalWidth e = Inr (width, Some err))
      = (exec_Output e (stty_command e) = ExecError))
   \<and> (exec_Output e (stty_command e) = ExecError
        \<longrightarrow> GetTerminalWidth e = Inr (0, Some ErrExecFail))
   \<and> (\<forall>out width err. exec_Output e (stty_command e) = ExecOutput out
        \<longrightarrow> GetTerminalWidth e \<noteq> Inr (width, Some err))"
  by (auto simp: GetTerminalWidth_def Let_def split: exec_result.splits sum.splits prod.splits)

theorem GetTerminalWidth_error_iff_witness:
  "exec_Output (linux_env tty_fails) (stty_command (linux_env tty_fails)) = ExecError
   \<and> GetTerminalWidth (linux_env tty_fails) = Inr (0, Some ErrExecFail)
   \<and> exec_Output (linux_env (tty_answers ''zz'')) (stty_command (linux_env (tty_answers ''zz''))) = ExecOutput ''zz''
   \<and> GetTerminalWidth (linux_env (tty_answers ''zz'')) \<noteq> Inr (0, Some ErrExecFail)"
  using GetTerminalWidth_error_iff [of "linux_env tty_fails"]
    GetTerminalWidth_error_iff [of "linux_env (tty_answers ''zz'')"]
  by (simp add: linux_env_def tty_fails_def tty_answers_def)

text \<open>
  C9: after a successful query the slice \<open>out[idx+1 : len(out)-1]\<close> is taken unguarded.
  \<open>GetTerminalWidth\<close> panics with out-of-range slice bounds exactly when \<open>idx + 1\<close> exceeds
  \<open>len(out) - 1\<close>, which the empty answer always does; so it returns a value only for a
  non-empty answer.
\<close>

theorem GetTerminalWidth_slice_fault:
  assumes "exec_Output e (stty_command e) = ExecOutput out"
  shows "((GetTerminalWidth e = Inl SliceBoundsOutOfRange)
            = (int (length out) - 1 < IndexByte out (SizeToken e) + 1))
         \<and> (out = [] \<longrightarrow> GetTerminalWidth e = Inl SliceBoundsOutOfRange)
         \<and> ((\<exists>r. GetTerminalWidth e = Inr r) \<longrightarrow> out \<noteq> [])"
  using assms IndexByte_lower [of out "SizeToken e"]
  by (auto simp: GetTerminalWidth_def go_slice_def Let_def split: prod.splits)

theorem GetTerminalWidth_slice_fault_witness:
  "exec_Output (linux_env (tty_answers [])) (stty_command (linux_env (tty_answers []))) = ExecOutput []
   \<and> GetTerminalWidth (linux_env (tty_answers [])) = Inl SliceBoundsOutOfRange
   \<and> exec_Output (linux_env (tty_answers ''80 '')) (stty_command (linux_env (tty_answers ''80 ''))) = ExecOutput ''80 ''
   \<and> int (length ''80 '') - 1 < IndexByte ''80 '' (SizeToken (linux_env (tty_answers ''80 ''))) + 1
   \<and> GetTerminalWidth (linux_env (tty_answers ''80 '')) = Inl SliceBoundsOutOfRange"
  using GetTerminalWidth_slice_fault [of "linux_env (tty_answers [])" "[]"]
    GetTerminalWidth_slice_fault [of "linux_env (tty_answers ''80 '')" "''80 ''"]
  by (simp add: linux_env_def tty_answers_def)

section \<open>Properties of Progress\<close>

lemma SetWidth_each_result:
  "list_all (\<lambda>bar. bar < length (bars w)) as \<Longrightarrow>
   \<exists>bs. SetWidth_each as width w = Inr (w\<lparr>bars := bs\<rparr>)
        \<and> length bs = length (bars w)
        \<and> (\<forall>i < length bs. bs ! i = (if i \<in> set as then (bars w ! i)\<lparr>Width := width\<rparr> else bars w ! i))"
proof (induction as arbitrary: w)
  case Nil
  show ?case by (rule exI [of _ "bars w"]) simp
next
  case (Cons a as)
  let ?w1 = "w\<lparr>bars := (bars w)[a := (bars w ! a)\<lparr>Width := width\<rparr>]\<rparr>"
  from Cons.prems have a: "a < length (bars w)" and rest: "list_all (\<lambda>bar. bar < length (bars ?w1)) as"
    by simp_all
  from Cons.IH [OF rest] obtain bs where
    bs: "SetWidth_each as width ?w1 = Inr (?w1\<lparr>bars := bs\<rparr>)"
      "length bs = length (bars ?w1)"
      "\<forall>i < length bs. bs ! i = (if i \<in> set as then (bars ?w1 ! i)\<lparr>Width := width\<rparr> else bars ?w1 ! i)"
    by blast
  show ?case
  proof (rule exI [of _ bs], intro conjI allI impI)
    show "SetWidth_each (a # as) width w = Inr (w\<lparr>bars := bs\<rparr>)"
      using a bs(1) by (simp add: SetWidth_def)
    show "length bs = length (bars w)" using bs(2) by simp
  next
    fix i assume i: "i < length bs"
    with bs(2,3) a show "bs ! i = (if i \<in> set (a # as) then (bars w ! i)\<lparr>Width := width\<rparr> else bars w ! i)"
      by (cases "i = a") (auto simp: nth_list_update)
  qed
qed

lemma Fprintln_each_result:
  "list_all (\<lambda>bar. bar < length (bars w)) as \<Longrightarrow>
   Fprintln_each e as (p, w) =
     Inr (p\<lparr>lw := (lw p)\<lparr>buf := buf (lw p) @ concat (map (\<lambda>bar. Bar_String e (bars w ! bar) @ [CHR 0x0A]) as)\<rparr>\<rparr>, w)"
  by (induction as arbitrary: p) simp_all

lemma AddBar_result:
  "AddBar e tot (p, w) =
     (length (bars w),
      p\<lparr>Bars := Bars p @ [length (bars w)]\<rparr>,
      w\<lparr>bars := bars w @ [\<lparr>Total = tot, current = 0, Width = pWidth p\<rparr>],
        trace := trace w @ [Lock, Unlock]\<rparr>)"
  by (simp add: AddBar_def NewBar_def emit_def)

lemma AddBars_result:
  "AddBars e tots (p, w) =
     (p\<lparr>Bars := Bars p @ [length (bars w) ..< length (bars w) + length tots]\<rparr>,
      w\<lparr>bars := bars w @ map (\<lambda>tot. \<lparr>Total = tot, current = 0, Width = pWidth p\<rparr>) tots,
        trace := trace w @ concat (map (\<lambda>tot. [Lock, Unlock]) tots)\<rparr>)"
proof (induction tots arbitrary: p w)
  case Nil
  show ?case by simp
next
  case (Cons t ts)
  have "[length (bars w) ..< length (bars w) + length (t # ts)]
        = length (bars w) # [Suc (length (bars w)) ..< Suc (length (bars w)) + length ts]"
    by (simp add: upt_rec)
  then show ?case
    by (simp add: AddBar_result Cons.IH)
qed

lemma render_pass_result:
  assumes "bars_allocated (p, w)"
  shows "render_pass e (p, w) =
     Inr (p\<lparr>lw := (lw p)\<lparr>buf := []\<rparr>\<rparr>,
          w\<lparr>trace := trace w @
             [Sleep (RefreshInterval p), RLock,
              Flushed (lw_Out (lw p))
                (buf (lw p) @ concat (map (\<lambda>bar. Bar_String e (bars w ! bar) @ [CHR 0x0A]) (Bars p))),
              RUnlock]\<rparr>)"
proof -
  let ?w1 = "emit RLock (emit (Sleep (RefreshInterval p)) w)"
  have "list_all (\<lambda>bar. bar < length (bars ?w1)) (Bars p)"
    using assms by (simp add: bars_allocated_def emit_def)
  from Fprintln_each_result [OF this, of e p] show ?thesis
    by (simp add: render_pass_def Flush_def emit_def)
qed

lemma two_bars_eval:
  "two_bars e =
     (\<lparr>Out = pkg_Out e, pWidth = pkg_Width e, Bars = [0, 1],
       RefreshInterval = pkg_RefreshInterval e,
       sigChan = Some 0, lw = \<lparr>lw_Out = 1, buf = []\<rparr>, stopChan = Some 1\<rparr>,
      \<lparr>bars = [\<lparr>Total = 100, current = 0, Width = pkg_Width e\<rparr>,
               \<lparr>Total = 50, current = 0, Width = pkg_Width e\<rparr>],
       chans = [\<lparr>ch_cap = 1, ch_queued = 0, ch_closed = False\<rparr>,
                \<lparr>ch_cap = 0, ch_queued = 0, ch_closed = False\<rparr>],
       trace = [Make 0, Make 1, Lock, Unlock, Lock, Unlock]\<rparr>)"
  by (simp add: two_bars_def New_def make_chan_def emit_def world0_def AddBar_def NewBar_def
      uilive_New_def)

text \<open>
  C3: when the terminal query fails, \<open>ChangeWidth\<close> prints the error and returns without a
  panic; the Progress and the store of bars (so every width) are as before, the only change
  being the printed line. Taken from the loop, the loop goes on, and a render pass on the
  state it leaves succeeds.
\<close>

theorem ChangeWidth_query_fails:
  assumes "exec_Output e (stty_command e) = ExecError"
  shows "ChangeWidth e (p, w)
           = Inr (p, w\<lparr>trace := trace w @ [Println ''errors: fail to get terminal width'']\<rparr>)
         \<and> (select_branch rnd (p, w) = Case_sigChan \<longrightarrow>
              Listen_iter e rnd (p, w)
                = Inr (Continue (p, (recv (sigChan p) w)
                     \<lparr>trace := trace w @ [Println ''errors: fail to get terminal width'']\<rparr>))
              \<and> bars (recv (sigChan p) w) = bars w)
         \<and> (bars_allocated (p, w) \<longrightarrow>
              (\<exists>s. render_pass e2
                 (p, w\<lparr>trace := trace w @ [Println ''errors: fail to get terminal width'']\<rparr>) = Inr s))"
proof -
  have gtw: "GetTerminalWidth e = Inr (0, Some ErrExecFail)"
    using assms by (simp add: GetTerminalWidth_def)
  have cw: "\<And>w. ChangeWidth e (p, w)
           = Inr (p, w\<lparr>trace := trace w @ [Println ''errors: fail to get terminal width'']\<rparr>)"
    by (simp add: ChangeWidth_def gtw emit_def Error_def)
  have tr: "trace (recv (sigChan p) w) = trace w" and bs: "bars (recv (sigChan p) w) = bars w"
    by (simp_all add: recv_def split: option.splits)
  have it: "select_branch rnd (p, w) = Case_sigChan \<longrightarrow>
              Listen_iter e rnd (p, w)
                = Inr (Continue (p, (recv (sigChan p) w)
                     \<lparr>trace := trace w @ [Println ''errors: fail to get terminal width'']\<rparr>))"
    by (simp add: Listen_iter_def cw tr)
  have rp: "bars_allocated (p, w) \<longrightarrow>
              (\<exists>s. render_pass e2
                 (p, w\<lparr>trace := trace w @ [Println ''errors: fail to get terminal width'']\<rparr>) = Inr s)"
  proof
    assume "bars_allocated (p, w)"
    then have "bars_allocated (p, w\<lparr>trace := trace w @ [Println ''errors: fail to get terminal width'']\<rparr>)"
      by (simp add: bars_allocated_def)
    from render_pass_result [OF this] show "\<exists>s. render_pass e2
                 (p, w\<lparr>trace := trace w @ [Println ''errors: fail to get terminal width'']\<rparr>) = Inr s"
      by blast
  qed
  from cw it bs rp show ?thesis by blast
qed

text \<open>
  C4: when the terminal query gives the width \<open>width\<close>, \<open>ChangeWidth\<close> sets that width on every
  bar of the collection, changes nothing else of any bar, and then flushes the sink, all
  under the read lock.
\<close>

theorem ChangeWidth_query_succeeds:
  assumes "GetTerminalWidth e = Inr (width, None)" and "bars_allocated (p, w)"
  shows "\<exists>bs. ChangeWidth e (p, w)
               = Inr (p\<lparr>lw := (lw p)\<lparr>buf := []\<rparr>\<rparr>,
                      w\<lparr>bars := bs,
                        trace := trace w @ [RLock, Flushed (lw_Out (lw p)) (buf (lw p)), RUnlock]\<rparr>)
            \<and> length bs = length (bars w)
            \<and> (\<forall>bar \<in> set (Bars p). Width (bs ! bar) = width)
            \<and> (\<forall>i < length bs. bs ! i = (if i \<in> set (Bars p) then (bars w ! i)\<lparr>Width := width\<rparr>
                                          else bars w ! i))"
proof -
  have alloc: "list_all (\<lambda>bar. bar < length (bars (emit RLock w))) (Bars p)"
    using assms(2) by (simp add: bars_allocated_def emit_def)
  from SetWidth_each_result [OF alloc, of width] obtain bs where
    bs: "SetWidth_each (Bars p) width (emit RLock w) = Inr ((emit RLock w)\<lparr>bars := bs\<rparr>)"
      "length bs = length (bars (emit RLock w))"
      "\<forall>i < length bs. bs ! i = (if i \<in> set (Bars p) then (bars (emit RLock w) ! i)\<lparr>Width := width\<rparr>
                                   else bars (emit RLock w) ! i)"
    by blast
  have len: "length bs = length (bars w)" using bs(2) by (simp add: emit_def)
  have each: "\<forall>i < length bs. bs ! i = (if i \<in> set (Bars p) then (bars w ! i)\<lparr>Width := width\<rparr>
                                          else bars w ! i)"
    using bs(3) by (simp add: emit_def)
  have inb: "\<forall>bar \<in> set (Bars p). bar < length bs"
    using assms(2) len by (simp add: bars_allocated_def list_all_iff)
  have all: "\<forall>bar \<in> set (Bars p). Width (bs ! bar) = width"
    using each inb by simp
  have "ChangeWidth e (p, w)
          = Inr (p\<lparr>lw := (lw p)\<lparr>buf := []\<rparr>\<rparr>,
                 w\<lparr>bars := bs,
                   trace := trace w @ [RLock, Flushed (lw_Out (lw p)) (buf (lw p)), RUnlock]\<rparr>)"
    using assms(1) bs(1) by (simp add: ChangeWidth_def Flush_def emit_def)
  with len all each show ?thesis by blast
qed

theorem ChangeWidth_query_fails_witness:
  "exec_Output (linux_env tty_fails) (stty_command (linux_env tty_fails)) = ExecError
   \<and> ChangeWidth (linux_env tty_fails) (two_bars (linux_env tty_fails))
       = Inr (fst (two_bars (linux_env tty_fails)),
              (snd (two_bars (linux_env tty_fails)))
                \<lparr>trace := [Make 0, Make 1, Lock, Unlock, Lock, Unlock,
                            Println ''errors: fail to get terminal width'']\<rparr>)
   \<and> map Width (bars (snd (two_bars (linux_env tty_fails)))) = [70, 70]"
  using ChangeWidth_query_fails [of "linux_env tty_fails" "fst (two_bars (linux_env tty_fails))"
      "snd (two_bars (linux_env tty_fails))"]
  by (simp add: two_bars_eval) (simp add: linux_env_def tty_fails_def)

theorem ChangeWidth_query_succeeds_witness:
  "GetTerminalWidth (linux_env (tty_answers (''24 100'' @ [CHR 0x0A]))) = Inr (80, None)
   \<and> bars_allocated (two_bars (linux_env (tty_answers (''24 100'' @ [CHR 0x0A]))))
   \<and> ChangeWidth (linux_env (tty_answers (''24 100'' @ [CHR 0x0A])))
        (two_bars (linux_env (tty_answers (''24 100'' @ [CHR 0x0A]))))
      = Inr (fst (two_bars (linux_env (tty_answers (''24 100'' @ [CHR 0x0A])))),
             \<lparr>bars = [\<lparr>Total = 100, current = 0, Width = 80\<rparr>,
                      \<lparr>Total = 50, current = 0, Width = 80\<rparr>],
              chans = [\<lparr>ch_cap = 1, ch_queued = 0, ch_closed = False\<rparr>,
                       \<lparr>ch_cap = 0, ch_queued = 0, ch_closed = False\<rparr>],
              trace = [Make 0, Make 1, Lock, Unlock, Lock, Unlock, RLock, Flushed 1 [], RUnlock]\<rparr>)"
proof -
  let ?e = "linux_env (tty_answers (''24 100'' @ [CHR 0x0A]))"
  have g: "GetTerminalWidth ?e = Inr (80, None)"
    by (simp add: GetTerminalWidth_def linux_env_def tty_answers_def stty_command_def
        go_slice_def Atoi_def ParseInt10_def ParseUint10_def sign_stripped_def is_digit_def)
  have a: "bars_allocated (fst (two_bars ?e), snd (two_bars ?e))"
    by (simp add: two_bars_eval bars_allocated_def)
  from ChangeWidth_query_succeeds [OF g a] obtain bs where
    cw: "ChangeWidth ?e (fst (two_bars ?e), snd (two_bars ?e))
           = Inr ((fst (two_bars ?e))\<lparr>lw := (lw (fst (two_bars ?e)))\<lparr>buf := []\<rparr>\<rparr>,
                  (snd (two_bars ?e))\<lparr>bars := bs,
                     trace := trace (snd (two_bars ?e))
                       @ [RLock, Flushed (lw_Out (lw (fst (two_bars ?e)))) (buf (lw (fst (two_bars ?e)))), RUnlock]\<rparr>)"
    and len: "length bs = length (bars (snd (two_bars ?e)))"
    and each: "\<forall>i < length bs. bs ! i = (if i \<in> set (Bars (fst (two_bars ?e)))
                 then (bars (snd (two_bars ?e)) ! i)\<lparr>Width := 80\<rparr> else bars (snd (two_bars ?e)) ! i)"
    by blast
  have len2: "length bs = 2" using len by (simp add: two_bars_eval)
  have "bs ! 0 = \<lparr>Total = 100, current = 0, Width = 80\<rparr>" "bs ! 1 = \<lparr>Total = 50, current = 0, Width = 80\<rparr>"
    using each len2 by (simp_all add: two_bars_eval)
  with len2 have "bs = [\<lparr>Total = 100, current = 0, Width = 80\<rparr>, \<lparr>Total = 50, current = 0, Width = 80\<rparr>]"
    by (auto simp: list_eq_iff_nth_eq nth_Cons' numeral_2_eq_2 less_Suc_eq)
  with cw g a show ?thesis by (simp add: two_bars_eval)
qed

lemma AddBars_allocated:
  assumes "bars_allocated (p, w)"
  shows "bars_allocated (AddBars e tots (p, w))"
proof -
  have "\<forall>bar \<in> set (Bars p). bar < length (bars w)"
    using assms by (simp add: bars_allocated_def list_all_iff)
  then show ?thesis
    by (auto simp: AddBars_result bars_allocated_def list_all_iff)
qed

text \<open>
  C5: \<open>AddBar\<close> puts the new bar at the end of the collection, so after any sequence of
  \<open>AddBar\<close> calls the collection is the old one followed by the new bars in the order of the
  calls; a render pass writes one line per bar of the collection, front to back, and flushes
  them as one block. That holds for the pass right after the calls and for every later one,
  whatever the bars have become by then.
\<close>

theorem render_pass_insertion_order:
  assumes "bars_allocated (p, w)" and "AddBars e tots (p, w) = (p', w')"
  shows "Bars (fst (snd (AddBar e tot (p, w)))) = Bars p @ [fst (AddBar e tot (p, w))]
       \<and> Bars p' = Bars p @ [length (bars w) ..< length (bars w) + length tots]
       \<and> map (\<lambda>bar. bars w' ! bar) (Bars p')
           = map (\<lambda>bar. bars w ! bar) (Bars p)
             @ map (\<lambda>tot. \<lparr>Total = tot, current = 0, Width = pWidth p\<rparr>) tots
       \<and> render_pass e2 (p', w') =
           Inr (p'\<lparr>lw := (lw p')\<lparr>buf := []\<rparr>\<rparr>,
                w'\<lparr>trace := trace w' @
                   [Sleep (RefreshInterval p'), RLock,
                    Flushed (lw_Out (lw p'))
                      (buf (lw p')
                       @ concat (map (\<lambda>bar. Bar_String e2 (bars w ! bar) @ [CHR 0x0A]) (Bars p))
                       @ concat (map (\<lambda>tot. Bar_String e2 \<lparr>Total = tot, current = 0, Width = pWidth p\<rparr>
                                              @ [CHR 0x0A]) tots)),
                    RUnlock]\<rparr>)
       \<and> (\<forall>w2 :: world. length (bars w2) = length (bars w') \<longrightarrow>
            render_pass e2 (p', w2) =
              Inr (p'\<lparr>lw := (lw p')\<lparr>buf := []\<rparr>\<rparr>,
                   w2\<lparr>trace := trace w2 @
                      [Sleep (RefreshInterval p'), RLock,
                       Flushed (lw_Out (lw p'))
                         (buf (lw p')
                          @ concat (map (\<lambda>bar. Bar_String e2 (bars w2 ! bar) @ [CHR 0x0A])
                              (Bars p @ [length (bars w) ..< length (bars w) + length tots]))),
                       RUnlock]\<rparr>))"
proof -
  have old: "\<forall>bar \<in> set (Bars p). bar < length (bars w)"
    using assms(1) by (simp add: bars_allocated_def list_all_iff)
  have p': "p' = p\<lparr>Bars := Bars p @ [length (bars w) ..< length (bars w) + length tots]\<rparr>"
    and w': "w' = w\<lparr>bars := bars w @ map (\<lambda>tot. \<lparr>Total = tot, current = 0, Width = pWidth p\<rparr>) tots,
                  trace := trace w @ concat (map (\<lambda>tot. [Lock, Unlock]) tots)\<rparr>"
    using assms(2) by (simp_all add: AddBars_result)
  have oldmap: "map (\<lambda>bar. bars w' ! bar) (Bars p) = map (\<lambda>bar. bars w ! bar) (Bars p)"
    using old by (simp add: w' nth_append)
  have newmap: "map (\<lambda>bar. bars w' ! bar) [length (bars w) ..< length (bars w) + length tots]
                  = map (\<lambda>tot. \<lparr>Total = tot, current = 0, Width = pWidth p\<rparr>) tots"
    by (rule nth_equalityI) (simp_all add: w' nth_append)
  have objs: "map (\<lambda>bar. bars w' ! bar) (Bars p')
           = map (\<lambda>bar. bars w ! bar) (Bars p)
             @ map (\<lambda>tot. \<lparr>Total = tot, current = 0, Width = pWidth p\<rparr>) tots"
    using oldmap newmap by (simp add: p')
  have lines: "concat (map (\<lambda>bar. Bar_String e2 (bars w' ! bar) @ [CHR 0x0A]) (Bars p'))
         = concat (map (\<lambda>bar. Bar_String e2 (bars w ! bar) @ [CHR 0x0A]) (Bars p))
           @ concat (map (\<lambda>tot. Bar_String e2 \<lparr>Total = tot, current = 0, Width = pWidth p\<rparr>
                                              @ [CHR 0x0A]) tots)"
  proof -
    have "map (\<lambda>bar. Bar_String e2 (bars w' ! bar) @ [CHR 0x0A]) (Bars p')
            = map (\<lambda>b. Bar_String e2 b @ [CHR 0x0A]) (map (\<lambda>bar. bars w' ! bar) (Bars p'))"
      by (simp add: comp_def)
    also have "\<dots> = map (\<lambda>b. Bar_String e2 b @ [CHR 0x0A])
                      (map (\<lambda>bar. bars w ! bar) (Bars p)
                       @ map (\<lambda>tot. \<lparr>Total = tot, current = 0, Width = pWidth p\<rparr>) tots)"
      by (simp only: objs)
    finally show ?thesis by (simp add: comp_def)
  qed
  have alloc: "bars_allocated (p', w')"
    using AddBars_allocated [OF assms(1), of e tots] assms(2) by simp
  have rp: "render_pass e2 (p', w') =
           Inr (p'\<lparr>lw := (lw p')\<lparr>buf := []\<rparr>\<rparr>,
                w'\<lparr>trace := trace w' @
                   [Sleep (RefreshInterval p'), RLock,
                    Flushed (lw_Out (lw p'))
                      (buf (lw p')
                       @ concat (map (\<lambda>bar. Bar_String e2 (bars w ! bar) @ [CHR 0x0A]) (Bars p))
                       @ concat (map (\<lambda>tot. Bar_String e2 \<lparr>Total = tot, current = 0, Width = pWidth p\<rparr>
                                              @ [CHR 0x0A]) tots)),
                    RUnlock]\<rparr>)"
    using render_pass_result [OF alloc, of e2] by (simp only: lines)
  have one: "Bars (fst (snd (AddBar e tot (p, w)))) = Bars p @ [fst (AddBar e tot (p, w))]"
    by (simp add: AddBar_result)
  have later: "\<forall>w2 :: world. length (bars w2) = length (bars w') \<longrightarrow>
            render_pass e2 (p', w2) =
              Inr (p'\<lparr>lw := (lw p')\<lparr>buf := []\<rparr>\<rparr>,
                   w2\<lparr>trace := trace w2 @
                      [Sleep (RefreshInterval p'), RLock,
                       Flushed (lw_Out (lw p'))
                         (buf (lw p')
                          @ concat (map (\<lambda>bar. Bar_String e2 (bars w2 ! bar) @ [CHR 0x0A])
                              (Bars p @ [length (bars w) ..< length (bars w) + length tots]))),
                       RUnlock]\<rparr>)"
  proof (intro allI impI)
    fix w2 :: world assume "length (bars w2) = length (bars w')"
    with alloc have "bars_allocated (p', w2)" by (simp add: bars_allocated_def)
    from render_pass_result [OF this, of e2]
    show "render_pass e2 (p', w2) =
              Inr (p'\<lparr>lw := (lw p')\<lparr>buf := []\<rparr>\<rparr>,
                   w2\<lparr>trace := trace w2 @
                      [Sleep (RefreshInterval p'), RLock,
                       Flushed (lw_Out (lw p'))
                         (buf (lw p')
                          @ concat (map (\<lambda>bar. Bar_String e2 (bars w2 ! bar) @ [CHR 0x0A])
                              (Bars p @ [length (bars w) ..< length (bars w) + length tots]))),
                       RUnlock]\<rparr>)"
      by (simp add: p')
  qed
  from one p' objs rp later show ?thesis by simp
qed

theorem render_pass_insertion_order_witness:
  "bars_allocated (New (linux_env tty_fails) world0)
   \<and> AddBars (linux_env tty_fails) [100, 50] (New (linux_env tty_fails) world0)
       = two_bars (linux_env tty_fails)
   \<and> Bars (fst (two_bars (linux_env tty_fails))) = [0, 1]
   \<and> map Total (bars (snd (two_bars (linux_env tty_fails)))) = [100, 50]
   \<and> render_pass (linux_env tty_fails) (two_bars (linux_env tty_fails))
       = Inr (fst (two_bars (linux_env tty_fails)),
              (snd (two_bars (linux_env tty_fails)))
                \<lparr>trace := [Make 0, Make 1, Lock, Unlock, Lock, Unlock, Sleep 10000000, RLock,
                   Flushed 1 (Bar_String (linux_env tty_fails) \<lparr>Total = 100, current = 0, Width = 70\<rparr> @ [CHR 0x0A]
                            @ Bar_String (linux_env tty_fails) \<lparr>Total = 50, current = 0, Width = 70\<rparr> @ [CHR 0x0A]),
                   RUnlock]\<rparr>)"
proof -
  let ?e = "linux_env tty_fails"
  have a: "bars_allocated (fst (New ?e world0), snd (New ?e world0))"
    by (simp add: bars_allocated_def New_def make_chan_def)
  have b: "AddBars ?e [100, 50] (fst (New ?e world0), snd (New ?e world0))
             = (fst (two_bars ?e), snd (two_bars ?e))"
    by (simp add: two_bars_def)
  have n: "New ?e world0 =
     (\<lparr>Out = 1, pWidth = 70, Bars = [], RefreshInterval = 10000000,
       sigChan = Some 0, lw = \<lparr>lw_Out = 1, buf = []\<rparr>, stopChan = Some 1\<rparr>,
      \<lparr>bars = [],
       chans = [\<lparr>ch_cap = 1, ch_queued = 0, ch_closed = False\<rparr>,
                \<lparr>ch_cap = 0, ch_queued = 0, ch_closed = False\<rparr>],
       trace = [Make 0, Make 1]\<rparr>)"
    by (simp add: New_def make_chan_def emit_def world0_def uilive_New_def linux_env_def)
  from render_pass_insertion_order [OF a b, of 7 ?e] a b show ?thesis
    by (simp add: two_bars_eval n) (simp add: linux_env_def)
qed

lemma New_Start_eval:
  "Start (New e world0) =
     Inr (\<lparr>Out = pkg_Out e, pWidth = pkg_Width e, Bars = [],
           RefreshInterval = pkg_RefreshInterval e,
           sigChan = Some 0, lw = \<lparr>lw_Out = 1, buf = []\<rparr>, stopChan = Some 1\<rparr>,
          \<lparr>bars = [],
           chans = [\<lparr>ch_cap = 1, ch_queued = 0, ch_closed = False\<rparr>,
                    \<lparr>ch_cap = 0, ch_queued = 0, ch_closed = False\<rparr>],
           trace = [Make 0, Make 1, Notify 0, Go_Listen]\<rparr>)"
  by (simp add: Start_def SetNotify_def New_def make_chan_def emit_def world0_def uilive_New_def)

text \<open>
  C6: on a Progress whose stop channel and resize channel are both present and open (as
  \<open>New\<close> and \<open>Start\<close> leave them), \<open>Stop\<close> closes both channels and sets both fields to nil.
  A \<open>Start\<close> after it makes two new channels, at addresses that are neither of the closed
  ones, leaves the closed ones closed, and only then subscribes the new resize channel and
  launches the loop.
\<close>

theorem Stop_then_Start_fresh:
  assumes "stopChan p = Some a" and "sigChan p = Some b" and "a \<noteq> b"
    and "a < length (chans w)" and "b < length (chans w)"
    and "\<not> ch_closed (chans w ! a)" and "\<not> ch_closed (chans w ! b)"
    and "w1 = w\<lparr>chans := (chans w)[a := (chans w ! a)\<lparr>ch_closed := True\<rparr>,
                                   b := (chans w ! b)\<lparr>ch_closed := True\<rparr>]\<rparr>"
    and "w2 = w1\<lparr>chans := chans w1 @ [\<lparr>ch_cap = 0, ch_queued = 0, ch_closed = False\<rparr>,
                                      \<lparr>ch_cap = 1, ch_queued = 0, ch_closed = False\<rparr>],
                  trace := trace w @ [Make (length (chans w)), Make (Suc (length (chans w))),
                                      Notify (Suc (length (chans w))), Go_Listen]\<rparr>"
  shows "Stop (p, w) = Inr (p\<lparr>stopChan := None, sigChan := None\<rparr>, w1)
         \<and> ch_closed (chans w1 ! a) \<and> ch_closed (chans w1 ! b)
         \<and> Start (p\<lparr>stopChan := None, sigChan := None\<rparr>, w1)
             = Inr (p\<lparr>stopChan := Some (length (chans w)),
                      sigChan := Some (Suc (length (chans w)))\<rparr>, w2)
         \<and> length (chans w) \<noteq> a \<and> length (chans w) \<noteq> b
         \<and> Suc (length (chans w)) \<noteq> a \<and> Suc (length (chans w)) \<noteq> b
         \<and> ch_closed (chans w2 ! a) \<and> ch_closed (chans w2 ! b)
         \<and> \<not> ch_closed (chans w2 ! length (chans w))
         \<and> \<not> ch_closed (chans w2 ! Suc (length (chans w)))"
proof -
  have stop: "Stop (p, w) = Inr (p\<lparr>stopChan := None, sigChan := None\<rparr>, w1)"
    using assms(1-8) by (simp add: Stop_def close_chan_def)
  have closed1: "ch_closed (chans w1 ! a)" "ch_closed (chans w1 ! b)"
    using assms(3-5,8) by (simp_all add: nth_list_update)
  have len1: "length (chans w1) = length (chans w)"
    using assms(8) by simp
  have start: "Start (p\<lparr>stopChan := None, sigChan := None\<rparr>, w1)
             = Inr (p\<lparr>stopChan := Some (length (chans w)),
                      sigChan := Some (Suc (length (chans w)))\<rparr>, w2)"
    using assms(8,9) by (simp add: Start_def SetNotify_def make_chan_def emit_def)
  have fresh: "length (chans w) \<noteq> a" "length (chans w) \<noteq> b"
    "Suc (length (chans w)) \<noteq> a" "Suc (length (chans w)) \<noteq> b"
    using assms(4,5) by simp_all
  have closed2: "ch_closed (chans w2 ! a)" "ch_closed (chans w2 ! b)"
    using assms(4,5,9) closed1 len1 by (simp_all add: nth_append)
  have open2: "\<not> ch_closed (chans w2 ! length (chans w))"
    "\<not> ch_closed (chans w2 ! Suc (length (chans w)))"
    using assms(9) len1 by (simp_all add: nth_append)
  from stop closed1 start fresh closed2 open2 show ?thesis by simp
qed

theorem Stop_then_Start_fresh_witness:
  "Start (New (linux_env tty_fails) world0)
     = Inr (\<lparr>Out = 1, pWidth = 70, Bars = [], RefreshInterval = 10000000,
             sigChan = Some 0, lw = \<lparr>lw_Out = 1, buf = []\<rparr>, stopChan = Some 1\<rparr>,
            \<lparr>bars = [],
             chans = [\<lparr>ch_cap = 1, ch_queued = 0, ch_closed = False\<rparr>,
                      \<lparr>ch_cap = 0, ch_queued = 0, ch_closed = False\<rparr>],
             trace = [Make 0, Make 1, Notify 0, Go_Listen]\<rparr>)
   \<and> Stop (\<lparr>Out = 1, pWidth = 70, Bars = [], RefreshInterval = 10000000,
             sigChan = Some 0, lw = \<lparr>lw_Out = 1, buf = []\<rparr>, stopChan = Some 1\<rparr>,
            \<lparr>bars = [],
             chans = [\<lparr>ch_cap = 1, ch_queued = 0, ch_closed = False\<rparr>,
                      \<lparr>ch_cap = 0, ch_queued = 0, ch_closed = False\<rparr>],
             trace = [Make 0, Make 1, Notify 0, Go_Listen]\<rparr>)
     = Inr (\<lparr>Out = 1, pWidth = 70, Bars = [], RefreshInterval = 10000000,
             sigChan = None, lw = \<lparr>lw_Out = 1, buf = []\<rparr>, stopChan = None\<rparr>,
            \<lparr>bars = [],
             chans = [\<lparr>ch_cap = 1, ch_queued = 0, ch_closed = True\<rparr>,
                      \<lparr>ch_cap = 0, ch_queued = 0, ch_closed = True\<rparr>],
             trace = [Make 0, Make 1, Notify 0, Go_Listen]\<rparr>)
   \<and> Start (\<lparr>Out = 1, pWidth = 70, Bars = [], RefreshInterval = 10000000,
             sigChan = None, lw = \<lparr>lw_Out = 1, buf = []\<rparr>, stopChan = None\<rparr>,
            \<lparr>bars = [],
             chans = [\<lparr>ch_cap = 1, ch_queued = 0, ch_closed = True\<rparr>,
                      \<lparr>ch_cap = 0, ch_queued = 0, ch_closed = True\<rparr>],
             trace = [Make 0, Make 1, Notify 0, Go_Listen]\<rparr>)
     = Inr (\<lparr>Out = 1, pWidth = 70, Bars = [], RefreshInterval = 10000000,
             sigChan = Some 3, lw = \<lparr>lw_Out = 1, buf = []\<rparr>, stopChan = Some 2\<rparr>,
            \<lparr>bars = [],
             chans = [\<lparr>ch_cap = 1, ch_queued = 0, ch_closed = True\<rparr>,
                      \<lparr>ch_cap = 0, ch_queued = 0, ch_closed = True\<rparr>,
                      \<lparr>ch_cap = 0, ch_queued = 0, ch_closed = False\<rparr>,
                      \<lparr>ch_cap = 1, ch_queued = 0, ch_closed = False\<rparr>],
             trace = [Make 0, Make 1, Notify 0, Go_Listen, Make 2, Make 3, Notify 3, Go_Listen]\<rparr>)"
proof -
  let ?p = "\<lparr>Out = 1, pWidth = 70, Bars = [], RefreshInterval = 10000000,
             sigChan = Some 0, lw = \<lparr>lw_Out = 1, buf = []\<rparr>, stopChan = Some 1\<rparr>"
  let ?w = "\<lparr>bars = [],
             chans = [\<lparr>ch_cap = 1, ch_queued = 0, ch_closed = False\<rparr>,
                      \<lparr>ch_cap = 0, ch_queued = 0, ch_closed = False\<rparr>],
             trace = [Make 0, Make 1, Notify 0, Go_Listen]\<rparr>"
  have s: "Start (New (linux_env tty_fails) world0) = Inr (?p, ?w)"
    by (simp add: New_Start_eval) (simp add: linux_env_def)
  from Stop_then_Start_fresh [of ?p 1 0 ?w, OF _ _ _ _ _ _ _ refl refl] s
  show ?thesis by simp
qed

lemma gtw_24_100: "GetTerminalWidth resized_env = Inr (80, None)"
  by (simp add: GetTerminalWidth_def resized_env_def linux_env_def tty_answers_def stty_command_def
        go_slice_def Atoi_def ParseInt10_def ParseUint10_def sign_stripped_def is_digit_def)

text \<open>
  C2, as stated: a fired stop wins over a pending resize. In the state where the stop
  channel is closed and a resize notification is buffered, both receives can proceed, and
  the select may pick the resize case: the iteration then calls \<open>ChangeWidth\<close> (the bar gets
  width 80) and the loop continues instead of returning.
\<close>

theorem Listen_iter_priority_counterexample:
  "recv_ready (snd stop_and_resize_pending) (stopChan (fst stop_and_resize_pending))
   \<and> recv_ready (snd stop_and_resize_pending) (sigChan (fst stop_and_resize_pending))
   \<and> Listen_iter resized_env 1 stop_and_resize_pending
       = Inr (Continue
           (\<lparr>Out = 1, pWidth = 70, Bars = [0], RefreshInterval = 10000000,
             sigChan = Some 0, lw = \<lparr>lw_Out = 1, buf = []\<rparr>, stopChan = Some 1\<rparr>,
            \<lparr>bars = [\<lparr>Total = 100, current = 0, Width = 80\<rparr>],
             chans = [\<lparr>ch_cap = 1, ch_queued = 0, ch_closed = False\<rparr>,
                      \<lparr>ch_cap = 0, ch_queued = 0, ch_closed = True\<rparr>],
             trace = [RLock, Flushed 1 [], RUnlock]\<rparr>))"
  by (simp add: stop_and_resize_pending_def recv_ready_def Listen_iter_def select_branch_def
      recv_def ChangeWidth_def gtw_24_100 SetWidth_def Flush_def emit_def)

text \<open>
  C2, amended: each iteration runs one select over the stop channel, the resize channel and
  a default case. When neither receive can proceed the default case sleeps for the refresh
  interval, renders every bar and flushes the sink, and the loop continues; when only the
  stop channel is ready the loop returns; when only a resize is pending \<open>ChangeWidth\<close> runs
  and the loop continues; when both are ready the select takes either of the two, by its
  random choice, so the loop returns or runs \<open>ChangeWidth\<close> and continues.
\<close>

theorem Listen_iter_select:
  "(\<not> recv_ready w (stopChan p) \<and> \<not> recv_ready w (sigChan p) \<longrightarrow>
      Listen_iter e rnd (p, w) = map_sum id Continue (render_pass e (p, w)))
   \<and> (\<not> recv_ready w (stopChan p) \<and> \<not> recv_ready w (sigChan p) \<and> bars_allocated (p, w) \<longrightarrow>
      Listen_iter e rnd (p, w) =
        Inr (Continue (p\<lparr>lw := (lw p)\<lparr>buf := []\<rparr>\<rparr>,
          w\<lparr>trace := trace w @
             [Sleep (RefreshInterval p), RLock,
              Flushed (lw_Out (lw p))
                (buf (lw p) @ concat (map (\<lambda>bar. Bar_String e (bars w ! bar) @ [CHR 0x0A]) (Bars p))),
              RUnlock]\<rparr>)))
   \<and> (recv_ready w (stopChan p) \<and> \<not> recv_ready w (sigChan p) \<longrightarrow>
      Listen_iter e rnd (p, w) = Inr (Return (p, recv (stopChan p) w)))
   \<and> (\<not> recv_ready w (stopChan p) \<and> recv_ready w (sigChan p) \<longrightarrow>
      Listen_iter e rnd (p, w) = map_sum id Continue (ChangeWidth e (p, recv (sigChan p) w)))
   \<and> (recv_ready w (stopChan p) \<and> recv_ready w (sigChan p) \<longrightarrow>
      Listen_iter e rnd (p, w) =
        (if even rnd then Inr (Return (p, recv (stopChan p) w))
         else map_sum id Continue (ChangeWidth e (p, recv (sigChan p) w))))"
proof -
  have none: "\<not> recv_ready w (stopChan p) \<and> \<not> recv_ready w (sigChan p) \<longrightarrow>
      Listen_iter e rnd (p, w) = map_sum id Continue (render_pass e (p, w))"
    by (simp add: Listen_iter_def select_branch_def split: sum.splits)
  have none_alloc: "\<not> recv_ready w (stopChan p) \<and> \<not> recv_ready w (sigChan p) \<and> bars_allocated (p, w) \<longrightarrow>
      Listen_iter e rnd (p, w) =
        Inr (Continue (p\<lparr>lw := (lw p)\<lparr>buf := []\<rparr>\<rparr>,
          w\<lparr>trace := trace w @
             [Sleep (RefreshInterval p), RLock,
              Flushed (lw_Out (lw p))
                (buf (lw p) @ concat (map (\<lambda>bar. Bar_String e (bars w ! bar) @ [CHR 0x0A]) (Bars p))),
              RUnlock]\<rparr>))"
    using none render_pass_result [of p w e] by simp
  have stop: "recv_ready w (stopChan p) \<and> \<not> recv_ready w (sigChan p) \<longrightarrow>
      Listen_iter e rnd (p, w) = Inr (Return (p, recv (stopChan p) w))"
    by (simp add: Listen_iter_def select_branch_def)
  have sig: "\<not> recv_ready w (stopChan p) \<and> recv_ready w (sigChan p) \<longrightarrow>
      Listen_iter e rnd (p, w) = map_sum id Continue (ChangeWidth e (p, recv (sigChan p) w))"
    by (simp add: Listen_iter_def select_branch_def split: sum.splits)
  have both: "recv_ready w (stopChan p) \<and> recv_ready w (sigChan p) \<longrightarrow>
      Listen_iter e rnd (p, w) =
        (if even rnd then Inr (Return (p, recv (stopChan p) w))
         else map_sum id Continue (ChangeWidth e (p, recv (sigChan p) w)))"
  proof (cases "even rnd")
    case True
    then have "rnd mod 2 = 0" by presburger
    then have "rnd mod Suc (Suc 0) = 0" by (simp add: numeral_2_eq_2)
    then show ?thesis using True
      by (simp add: Listen_iter_def select_branch_def)
  next
    case False
    then have "rnd mod 2 = 1" by presburger
    then have "rnd mod Suc (Suc 0) = Suc 0" by (simp add: numeral_2_eq_2)
    then show ?thesis using False
      by (simp add: Listen_iter_def select_branch_def split: sum.splits)
  qed
  from none none_alloc stop sig both show ?thesis by blast
qed

theorem Listen_iter_select_witness:
  "recv_ready (snd stop_and_resize_pending) (stopChan (fst stop_and_resize_pending))
   \<and> recv_ready (snd stop_and_resize_pending) (sigChan (fst stop_and_resize_pending))
   \<and> Listen_iter resized_env 0 stop_and_resize_pending
       = Inr (Return (fst stop_and_resize_pending,
                      recv (stopChan (fst stop_and_resize_pending)) (snd stop_and_resize_pending)))
   \<and> Listen_iter resized_env 1 stop_and_resize_pending
       = map_sum id Continue
           (ChangeWidth resized_env
              (fst stop_and_resize_pending,
               recv (sigChan (fst stop_and_resize_pending)) (snd stop_and_resize_pending)))
   \<and> \<not> recv_ready (snd (two_bars resized_env)) (stopChan (fst (two_bars resized_env)))
   \<and> \<not> recv_ready (snd (two_bars resized_env)) (sigChan (fst (two_bars resized_env)))
   \<and> bars_allocated (two_bars resized_env)
   \<and> Listen_iter resized_env 5 (two_bars resized_env)
       = Inr (Continue (fst (two_bars resized_env),
           (snd (two_bars resized_env))
             \<lparr>trace := [Make 0, Make 1, Lock, Unlock, Lock, Unlock, Sleep 10000000, RLock,
                Flushed 1 (Bar_String resized_env \<lparr>Total = 100, current = 0, Width = 70\<rparr> @ [CHR 0x0A]
                         @ Bar_String resized_env \<lparr>Total = 50, current = 0, Width = 70\<rparr> @ [CHR 0x0A]),
                RUnlock]\<rparr>))"
proof -
  have ready: "recv_ready (snd stop_and_resize_pending) (stopChan (fst stop_and_resize_pending))"
    "recv_ready (snd stop_and_resize_pending) (sigChan (fst stop_and_resize_pending))"
    by (simp_all add: stop_and_resize_pending_def recv_ready_def)
  have idle: "\<not> recv_ready (snd (two_bars resized_env)) (stopChan (fst (two_bars resized_env)))"
    "\<not> recv_ready (snd (two_bars resized_env)) (sigChan (fst (two_bars resized_env)))"
    "bars_allocated (fst (two_bars resized_env), snd (two_bars resized_env))"
    by (simp_all add: two_bars_eval recv_ready_def bars_allocated_def)
  have env: "pkg_Width resized_env = 70" "pkg_RefreshInterval resized_env = 10000000"
    by (simp_all add: resized_env_def linux_env_def)
  from ready
    Listen_iter_select [of "snd stop_and_resize_pending" "fst stop_and_resize_pending" resized_env 0]
  have r0: "Listen_iter resized_env 0 stop_and_resize_pending
       = Inr (Return (fst stop_and_resize_pending,
                      recv (stopChan (fst stop_and_resize_pending)) (snd stop_and_resize_pending)))"
    by simp
  from ready
    Listen_iter_select [of "snd stop_and_resize_pending" "fst stop_and_resize_pending" resized_env 1]
  have r1: "Listen_iter resized_env 1 stop_and_resize_pending
       = map_sum id Continue
           (ChangeWidth resized_env
              (fst stop_and_resize_pending,
               recv (sigChan (fst stop_and_resize_pending)) (snd stop_and_resize_pending)))"
    by simp
  let ?p = "fst (two_bars resized_env)" and ?w = "snd (two_bars resized_env)"
  from idle Listen_iter_select [of ?w ?p resized_env 5]
  have "Listen_iter resized_env 5 (?p, ?w) =
        Inr (Continue (?p\<lparr>lw := (lw ?p)\<lparr>buf := []\<rparr>\<rparr>,
          ?w\<lparr>trace := trace ?w @
             [Sleep (RefreshInterval ?p), RLock,
              Flushed (lw_Out (lw ?p))
                (buf (lw ?p) @ concat (map (\<lambda>bar. Bar_String resized_env (bars ?w ! bar) @ [CHR 0x0A]) (Bars ?p))),
              RUnlock]\<rparr>))"
    by blast
  then have r5: "Listen_iter resized_env 5 (two_bars resized_env)
       = Inr (Continue (fst (two_bars resized_env),
           (snd (two_bars resized_env))
             \<lparr>trace := [Make 0, Make 1, Lock, Unlock, Lock, Unlock, Sleep 10000000, RLock,
                Flushed 1 (Bar_String resized_env \<lparr>Total = 100, current = 0, Width = 70\<rparr> @ [CHR 0x0A]
                         @ Bar_String resized_env \<lparr>Total = 50, current = 0, Width = 70\<rparr> @ [CHR 0x0A]),
                RUnlock]\<rparr>))"
    by (simp add: two_bars_eval env)
  from ready idle r0 r1 r5 show ?thesis by simp
qed

lemma SetWidth_each_frame:
  "SetWidth_each as width w = Inr w' \<Longrightarrow>
   chans w' = chans w \<and> trace w' = trace w \<and> same_but_Width (bars w) (bars w')"
proof (induction as arbitrary: w)
  case Nil
  then show ?case by (simp add: same_but_Width_def)
next
  case (Cons a as)
  from Cons.prems have a: "a < length (bars w)"
    by (simp add: SetWidth_def split: if_splits)
  let ?w1 = "w\<lparr>bars := (bars w)[a := (bars w ! a)\<lparr>Width := width\<rparr>]\<rparr>"
  from Cons.prems a have "SetWidth_each as width ?w1 = Inr w'"
    by (simp add: SetWidth_def)
  from Cons.IH [OF this] a show ?case
    by (simp add: same_but_Width_def map_update list_update_same_conv)
qed

lemma ChangeWidth_frame:
  assumes "ChangeWidth e (p, w) = Inr (p', w')"
  shows "same_but_lw p p' \<and> chans w' = chans w \<and> same_but_Width (bars w) (bars w')"
proof (cases "GetTerminalWidth e")
  case (Inl pn)
  with assms show ?thesis by (simp add: ChangeWidth_def)
next
  case (Inr r)
  obtain width err where r: "r = (width, err)" by (cases r)
  show ?thesis
  proof (cases err)
    case (Some x)
    with assms Inr r show ?thesis
      by (auto simp: ChangeWidth_def emit_def same_but_lw_def same_but_Width_def)
  next
    case None
    with assms Inr r obtain w1 where
      sw: "SetWidth_each (Bars p) width (emit RLock w) = Inr w1"
      and res: "(p', w') = (case Flush (p, w1) of (p2, w2) \<Rightarrow> (p2, emit RUnlock w2))"
      by (auto simp: ChangeWidth_def split: sum.splits prod.splits)
    from SetWidth_each_frame [OF sw] res show ?thesis
      by (simp add: Flush_def emit_def same_but_lw_def)
  qed
qed

lemma Fprintln_each_frame:
  "Fprintln_each e as (p, w) = Inr (p', w') \<Longrightarrow> same_but_lw p p' \<and> w' = w"
proof (induction as arbitrary: p)
  case Nil
  then show ?case by (simp add: same_but_lw_def)
next
  case (Cons a as)
  let ?p1 = "p\<lparr>lw := (lw p)\<lparr>buf := buf (lw p) @ Bar_String e (bars w ! a) @ [CHR 0x0A]\<rparr>\<rparr>"
  from Cons.prems have "Fprintln_each e as (?p1, w) = Inr (p', w')"
    by (simp split: if_splits)
  from Cons.IH [OF this] show ?case by (simp add: same_but_lw_def)
qed

lemma render_pass_frame:
  assumes "render_pass e (p, w) = Inr (p', w')"
  shows "same_but_lw p p' \<and> chans w' = chans w \<and> bars w' = bars w"
proof -
  from assms obtain p1 w1 where
    f: "Fprintln_each e (Bars p) (p, emit RLock (emit (Sleep (RefreshInterval p)) w)) = Inr (p1, w1)"
    and res: "(p', w') = (case Flush (p1, w1) of (p2, w2) \<Rightarrow> (p2, emit RUnlock w2))"
    by (auto simp: render_pass_def split: sum.splits prod.splits)
  from Fprintln_each_frame [OF f] res show ?thesis
    by (simp add: Flush_def emit_def same_but_lw_def)
qed

lemma recv_frame: "bars (recv c w) = bars w"
  by (simp add: recv_def split: option.splits)

lemma Listen_iter_frame:
  assumes "Listen_iter e rnd (p, w) = Inr l" and "loop_state l = (p', w')"
  shows "same_but_lw p p' \<and> same_but_Width (bars w) (bars w')"
proof (cases "select_branch rnd (p, w)")
  case Case_stopChan
  with assms show ?thesis
    by (auto simp: Listen_iter_def loop_state_def recv_frame same_but_lw_def same_but_Width_def)
next
  case Case_sigChan
  with assms have "ChangeWidth e (p, recv (sigChan p) w) = Inr (p', w')"
    by (auto simp: Listen_iter_def loop_state_def split: sum.splits)
  from ChangeWidth_frame [OF this] show ?thesis by (simp add: recv_frame)
next
  case Case_default
  with assms have "render_pass e (p, w) = Inr (p', w')"
    by (auto simp: Listen_iter_def loop_state_def split: sum.splits)
  from render_pass_frame [OF this] show ?thesis by (simp add: same_but_Width_def)
qed

lemma same_but_lw_trans: "same_but_lw p p1 \<Longrightarrow> same_but_lw p1 p2 \<Longrightarrow> same_but_lw p p2"
  by (simp add: same_but_lw_def)

lemma same_but_Width_trans:
  "same_but_Width bs bs1 \<Longrightarrow> same_but_Width bs1 bs2 \<Longrightarrow> same_but_Width bs bs2"
  by (simp add: same_but_Width_def)

lemma Listen_loop_frame:
  "Listen_loop ticks (p, w) = Inr l \<Longrightarrow> loop_state l = (p', w') \<Longrightarrow>
   same_but_lw p p' \<and> same_but_Width (bars w) (bars w')"
proof (induction ticks arbitrary: p w)
  case Nil
  then show ?case by (auto simp: loop_state_def same_but_lw_def same_but_Width_def)
next
  case (Cons t ticks)
  obtain e rnd where t: "t = (e, rnd)" by (cases t)
  from Cons.prems(1) t obtain l1 where it: "Listen_iter e rnd (p, w) = Inr l1"
    by (auto split: sum.splits)
  obtain p1 w1 where s1: "loop_state l1 = (p1, w1)" by (cases "loop_state l1")
  note f1 = Listen_iter_frame [OF it s1]
  show ?case
  proof (cases l1)
    case (Return s)
    with Cons.prems t it s1 have "(p', w') = (p1, w1)"
      by (auto simp: loop_state_def)
    with f1 show ?thesis by simp
  next
    case (Continue s)
    with Cons.prems(1) t it s1 have "Listen_loop ticks (p1, w1) = Inr l"
      by (auto simp: loop_state_def)
    from Cons.IH [OF this Cons.prems(2)] f1 show ?thesis
      by (blast intro: same_but_lw_trans same_but_Width_trans)
  qed
qed

lemma Listen_frame:
  assumes "Listen ticks (p, w) = Inr l" and "loop_state l = (p', w')"
  shows "same_but_lw p p' \<and> same_but_Width (bars w) (bars w')"
proof -
  from assms(1) have "Listen_loop ticks (p\<lparr>lw := (lw p)\<lparr>lw_Out := Out p\<rparr>\<rparr>, w) = Inr l"
    by (simp add: Listen_def)
  from Listen_loop_frame [OF this assms(2)] show ?thesis
    by (simp add: same_but_lw_def)
qed

lemma Start_Bars: "Start (p, w) = Inr (p', w') \<Longrightarrow> Bars p' = Bars p \<and> bars w' = bars w"
  by (auto simp: Start_def SetNotify_def make_chan_def emit_def split: if_splits option.splits prod.splits sum.splits)

lemma Stop_Bars: "Stop (p, w) = Inr (p', w') \<Longrightarrow> Bars p' = Bars p \<and> bars w' = bars w"
  by (auto simp: Stop_def close_chan_def split: if_splits option.splits sum.splits)

lemma SetNotify_Bars: "SetNotify (p, w) = Inr (p', w') \<Longrightarrow> Bars p' = Bars p \<and> bars w' = bars w"
  by (auto simp: SetNotify_def emit_def split: option.splits)

lemma apply_op_prefix:
  assumes "apply_op c (p, w) = Inr (p', w')"
  shows "prefix (Bars p) (Bars p')"
proof (cases c)
  case (Op_AddBar e tot)
  with assms show ?thesis by (auto simp: apply_op_def AddBar_result)
next
  case (Op_ChangeWidth e)
  with assms ChangeWidth_frame [of e p w p' w'] show ?thesis
    by (simp add: apply_op_def same_but_lw_def)
next
  case (Op_Listen ticks)
  with assms obtain l where "Listen ticks (p, w) = Inr l" "loop_state l = (p', w')"
    by (cases "Listen ticks (p, w)") (auto simp: apply_op_def)
  from Listen_frame [OF this] show ?thesis by (simp add: same_but_lw_def)
next
  case (Op_Listen_iter e rnd)
  with assms obtain l where "Listen_iter e rnd (p, w) = Inr l" "loop_state l = (p', w')"
    by (cases "Listen_iter e rnd (p, w)") (auto simp: apply_op_def)
  from Listen_iter_frame [OF this] show ?thesis by (simp add: same_but_lw_def)
next
  case Op_Start
  with assms Start_Bars [of p w p' w'] show ?thesis by (simp add: apply_op_def)
next
  case Op_Stop
  with assms Stop_Bars [of p w p' w'] show ?thesis by (simp add: apply_op_def)
next
  case Op_SetNotify
  with assms SetNotify_Bars [of p w p' w'] show ?thesis by (simp add: apply_op_def)
qed

lemma run_ops_prefix:
  "run_ops cs (p, w) = Inr (p', w') \<Longrightarrow> prefix (Bars p) (Bars p')"
proof (induction cs arbitrary: p w)
  case Nil
  then show ?case by simp
next
  case (Cons c cs)
  from Cons.prems obtain p1 w1 where a: "apply_op c (p, w) = Inr (p1, w1)"
    and r: "run_ops cs (p1, w1) = Inr (p', w')"
    by (auto split: sum.splits)
  from apply_op_prefix [OF a] Cons.IH [OF r] show ?case
    by (rule prefix_order.trans)
qed

text \<open>
  C10: \<open>AddBar\<close> appends exactly one bar at the end of the collection; \<open>ChangeWidth\<close>, one
  iteration of the refresh loop and the whole loop leave the collection as it is, change
  nothing of the Progress but its writer, and nothing of any bar but its width; and after
  any sequence of operations of Progress the earlier collection is a prefix of the later one.
\<close>

theorem Bars_only_grow:
  "(AddBar e tot (p, w) = (bar, p', w') \<longrightarrow>
      Bars p' = Bars p @ [bar] \<and> length (Bars p') = Suc (length (Bars p)))
   \<and> (ChangeWidth e (p, w) = Inr (p', w') \<longrightarrow>
        same_but_lw p p' \<and> Bars p' = Bars p \<and> same_but_Width (bars w) (bars w'))
   \<and> (Listen_iter e rnd (p, w) = Inr l \<and> loop_state l = (p', w') \<longrightarrow>
        same_but_lw p p' \<and> Bars p' = Bars p \<and> same_but_Width (bars w) (bars w'))
   \<and> (Listen ticks (p, w) = Inr l \<and> loop_state l = (p', w') \<longrightarrow>
        same_but_lw p p' \<and> Bars p' = Bars p \<and> same_but_Width (bars w) (bars w'))
   \<and> (run_ops cs (p, w) = Inr (p', w') \<longrightarrow> prefix (Bars p) (Bars p'))"
proof -
  have add: "AddBar e tot (p, w) = (bar, p', w') \<longrightarrow>
      Bars p' = Bars p @ [bar] \<and> length (Bars p') = Suc (length (Bars p))"
    by (auto simp: AddBar_result)
  have cw: "ChangeWidth e (p, w) = Inr (p', w') \<longrightarrow>
        same_but_lw p p' \<and> Bars p' = Bars p \<and> same_but_Width (bars w) (bars w')"
    using ChangeWidth_frame [of e p w p' w'] by (simp add: same_but_lw_def)
  have it: "Listen_iter e rnd (p, w) = Inr l \<and> loop_state l = (p', w') \<longrightarrow>
        same_but_lw p p' \<and> Bars p' = Bars p \<and> same_but_Width (bars w) (bars w')"
    using Listen_iter_frame [of e rnd p w l p' w'] by (simp add: same_but_lw_def)
  have li: "Listen ticks (p, w) = Inr l \<and> loop_state l = (p', w') \<longrightarrow>
        same_but_lw p p' \<and> Bars p' = Bars p \<and> same_but_Width (bars w) (bars w')"
    using Listen_frame [of ticks p w l p' w'] by (simp add: same_but_lw_def)
  have ops: "run_ops cs (p, w) = Inr (p', w') \<longrightarrow> prefix (Bars p) (Bars p')"
    using run_ops_prefix [of cs p w p' w'] by blast
  from add cw it li ops show ?thesis by blast
qed

theorem Bars_only_grow_witness:
  "map_sum id (\<lambda>s. Bars (fst s))
     (run_ops [Op_ChangeWidth resized_env, Op_AddBar resized_env 7, Op_Listen_iter resized_env 0,
               Op_Stop, Op_Start] (two_bars resized_env)) = Inr [0, 1, 2]
   \<and> Bars (fst (two_bars resized_env)) = [0, 1]
   \<and> prefix (Bars (fst (two_bars resized_env))) [0, 1, 2]"
proof -
  let ?cs = "[Op_ChangeWidth resized_env, Op_AddBar resized_env 7, Op_Listen_iter resized_env 0,
               Op_Stop, Op_Start]"
  have env: "pkg_Width resized_env = 70" "pkg_RefreshInterval resized_env = 10000000"
    "pkg_Out resized_env = 1"
    by (simp_all add: resized_env_def linux_env_def)
  have run: "map_sum id (\<lambda>s. Bars (fst s)) (run_ops ?cs (two_bars resized_env)) = Inr [0, 1, 2]"
    by (simp add: two_bars_eval env apply_op_def ChangeWidth_def gtw_24_100 SetWidth_def
        Flush_def emit_def AddBar_result Listen_iter_def select_branch_def recv_ready_def
        render_pass_def loop_state_def Stop_def close_chan_def Start_def SetNotify_def
        make_chan_def)
  then obtain p' w' where r: "run_ops ?cs (fst (two_bars resized_env), snd (two_bars resized_env)) = Inr (p', w')"
    and b: "Bars p' = [0, 1, 2]"
    by (cases "run_ops ?cs (two_bars resized_env)") auto
  from Bars_only_grow [of resized_env 0 "fst (two_bars resized_env)" "snd (two_bars resized_env)"
      0 p' w' 0 "Continue (p', w')" "[]" ?cs] r b
  have "prefix (Bars (fst (two_bars resized_env))) [0, 1, 2]" by simp
  with run show ?thesis by (simp add: two_bars_eval)
qed

end
